theory Spec2Isabelle
  imports Main "HOL-Library.AList"
begin

section \<open>The route documentation interceptor of chalice-spec\<close>

text \<open>
  A shallow embedding of \<^verbatim>\<open>src/chalice_spec/chalice_legacy.py\<close>: the method
  \<^verbatim>\<open>ChalicePlugin.init_spec\<close> and the three closures it installs (\<^verbatim>\<open>route\<close>,
  \<^verbatim>\<open>blueprint_route\<close>/\<^verbatim>\<open>inner_route\<close> and \<^verbatim>\<open>register_blueprint\<close>).

  Python values are a datatype, keyword arguments are association lists in insertion
  order, exceptions are the left summand of a sum type, and the mutable objects (the
  spec, the application, the blueprints) are fields of one record that every call takes
  and returns. Every call that leaves the module (to apispec, to Chalice, to
  \<^verbatim>\<open>Docs.build_operations\<close>) is appended to the field \<open>calls\<close> of that record, so that
  what the collaborators receive, how often and in which order can be stated.
\<close>

subsection \<open>Python values\<close>

datatype py_error =
    KeyError string
  | TypeError
  | AttributeError
  | Raised string  \<comment> \<open>an exception raised inside an external collaborator\<close>

text \<open>
  Modelled from the spec: the classes \<^verbatim>\<open>Docs\<close> and \<^verbatim>\<open>Operation\<close> of
  \<^verbatim>\<open>chalice_spec.docs\<close> and pydantic's \<^verbatim>\<open>BaseModel\<close>, which the module imports and which
  are not among the sources. The documentation descriptor is "a value object, keyed by
  lower-cased HTTP method name, each value describing the expected response schema and
  (optionally) expected request-body schema", with "a summary attribute"; \<open>BaseModel\<close>
  is the "default placeholder schema". \<^verbatim>\<open>Docs(**d)\<close> keeps the dictionary \<open>d\<close> and has
  no summary.
\<close>

datatype schema = BaseModel | Model string

record operation =
  response :: "schema option"
  request :: "schema option"

record docs =
  entries :: "(string \<times> operation) list"
  summary :: "string option"

datatype pyval =
    PNone
  | PBool bool
  | PInt int
  | PStr string
  | PList "pyval list"
  | PDocs docs
  | PApp  \<comment> \<open>the reference to the Chalice application object\<close>

type_synonym kwargs = "(string \<times> pyval) list"

text \<open>The truth value of a Python object, as \<^verbatim>\<open>if docs:\<close> tests it.\<close>

fun truthy :: "pyval \<Rightarrow> bool" where
  "truthy PNone = False"
| "truthy (PBool b) = b"
| "truthy (PInt i) = (i \<noteq> 0)"
| "truthy (PStr s) = (s \<noteq> [])"
| "truthy (PList vs) = (vs \<noteq> [])"
| "truthy (PDocs d) = True"
| "truthy PApp = True"

text \<open>
  A character is a code point below 256, so a \<open>string\<close> is a Python \<^verbatim>\<open>str\<close> over
  Latin-1 (HTTP method names are ASCII). There \<^verbatim>\<open>str.lower()\<close> works character by
  character: it adds 32 to \<^verbatim>\<open>A\<close> to \<^verbatim>\<open>Z\<close> (65 to 90) and to the accented capitals
  U+00C0 to U+00DE (192 to 222) other than the multiplication sign U+00D7 (215), and
  leaves every other character as it is.
\<close>

definition lower_char :: "char \<Rightarrow> char" where
  "lower_char c =
     (let n = (of_char c :: nat) in
      if (65 \<le> n \<and> n \<le> 90) \<or> (192 \<le> n \<and> n \<le> 222 \<and> n \<noteq> 215)
      then char_of (n + 32) else c)"

definition lower :: "string \<Rightarrow> string" where
  "lower s = map lower_char s"

text \<open>
  Casing, stated without \<open>lower\<close>. The capital letters below 256 are \<^verbatim>\<open>A\<close> to \<^verbatim>\<open>Z\<close>
  and U+00C0 to U+00DE other than U+00D7; a capital and the character 32 above it (its
  small form) are the same letter. Two names differ in casing only when they have the same
  length and, position by position, the same letter.
\<close>

definition capital :: "char \<Rightarrow> bool" where
  "capital c =
     (let n = (of_char c :: nat) in (65 \<le> n \<and> n \<le> 90) \<or> (192 \<le> n \<and> n \<le> 222 \<and> n \<noteq> 215))"

definition same_letter :: "char \<Rightarrow> char \<Rightarrow> bool" where
  "same_letter c d =
     (c = d \<or> (capital c \<and> (of_char d :: nat) = of_char c + 32)
            \<or> (capital d \<and> (of_char c :: nat) = of_char d + 32))"

definition differ_in_casing_only :: "string \<Rightarrow> string \<Rightarrow> bool" where
  "differ_in_casing_only s t = list_all2 same_letter s t"

subsection \<open>Line 50: the lower-cased methods\<close>

text \<open>
  \<^verbatim>\<open>[method.lower() for method in kwargs.get("methods", ["get"])]\<close>. The comprehension
  raises at the first element that has no \<^verbatim>\<open>lower\<close>; a value that cannot be iterated
  raises \<^verbatim>\<open>TypeError\<close>; a string is iterated character by character.
\<close>

fun lower_each :: "pyval list \<Rightarrow> py_error + string list" where
  "lower_each [] = Inr []"
| "lower_each (PStr s # vs) =
     (case lower_each vs of Inl e \<Rightarrow> Inl e | Inr ms \<Rightarrow> Inr (lower s # ms))"
| "lower_each (v # vs) = Inl AttributeError"

definition lowered_methods :: "kwargs \<Rightarrow> py_error + string list" where
  "lowered_methods kwargs =
     (case map_of kwargs ''methods'' of
        None \<Rightarrow> lower_each [PStr ''get'']
      | Some (PList vs) \<Rightarrow> lower_each vs
      | Some (PStr s) \<Rightarrow> lower_each (map (\<lambda>c. PStr [c]) s)
      | Some v \<Rightarrow> Inl TypeError)"

subsection \<open>Lines 52 to 65: the synthesized descriptor\<close>

definition default_operation :: "string \<Rightarrow> operation" where
  "default_operation method =
     \<lparr> response = Some BaseModel,
       request = (if method \<in> set [''get'', ''delete'', ''head'', ''options'']
                  then None else Some BaseModel) \<rparr>"

text \<open>The dictionary comprehension: a repeated key keeps its place and takes the later value.\<close>

definition default_docs :: "string list \<Rightarrow> docs" where
  "default_docs methods =
     \<lparr> entries = fold (\<lambda>method d. AList.update method (default_operation method) d) methods [],
       summary = None \<rparr>"

subsection \<open>The objects and the external collaborators\<close>

text \<open>
  Closures are data: each constructor holds what the closure captured. \<open>ChaliceRoute\<close>
  and \<open>ChaliceRegisterBlueprint\<close> are the bound methods of the application before any
  installation, \<open>BlueprintOwnRoute\<close> the one of a blueprint.
\<close>

datatype route_fn =
    ChaliceRoute
  | RouteClosure bool route_fn  \<comment> \<open>\<^verbatim>\<open>self._generate_default_docs\<close>, \<^verbatim>\<open>original_route\<close>\<close>

text \<open>
  The flag is an attribute of the plugin, assigned in \<^verbatim>\<open>__init__\<close> and nowhere else, so the
  closure holds its value.
\<close>

datatype blueprint_route_fn =
    BlueprintOwnRoute
  | InnerRoute "string option" route_fn  \<comment> \<open>\<^verbatim>\<open>prefix_url\<close>, \<^verbatim>\<open>route\<close>\<close>

datatype register_fn =
    ChaliceRegisterBlueprint
  | RegisterBlueprintClosure route_fn register_fn
      \<comment> \<open>\<^verbatim>\<open>route\<close>, \<^verbatim>\<open>original_register_blueprint\<close>\<close>

datatype 'o event =
    BuildOperations docs "string list"
  | SpecPath string 'o "string option"
  | CallChaliceRoute string kwargs
  | CallChaliceRegisterBlueprint nat "string option" "string option"
  | CallBlueprintOwnRoute nat string kwargs

record ('s, 'a, 'o) world =
  spec_options :: kwargs  \<comment> \<open>\<^verbatim>\<open>spec.options\<close>\<close>
  spec_state :: 's  \<comment> \<open>what the spec-building object has accumulated\<close>
  app_state :: 'a  \<comment> \<open>what the framework has registered\<close>
  app_route :: route_fn  \<comment> \<open>\<^verbatim>\<open>chalice_app.route\<close>\<close>
  app_register_blueprint :: register_fn  \<comment> \<open>\<^verbatim>\<open>chalice_app.register_blueprint\<close>\<close>
  blueprint_route_attr :: "nat \<Rightarrow> blueprint_route_fn"  \<comment> \<open>\<^verbatim>\<open>blueprint.route\<close>, per blueprint\<close>
  calls :: "'o event list"

text \<open>
  The collaborators are parameters: each takes the state of the object it works on and
  returns a result or an exception, and the state it leaves behind.
\<close>

record ('s, 'a, 'o, 'r) env =
  docs_build_operations :: "docs \<Rightarrow> 's \<Rightarrow> string list \<Rightarrow> (py_error + 'o) \<times> 's"
  apispec_path :: "'s \<Rightarrow> string \<Rightarrow> 'o \<Rightarrow> string option \<Rightarrow> (py_error + unit) \<times> 's"
  chalice_route :: "'a \<Rightarrow> string \<Rightarrow> kwargs \<Rightarrow> (py_error + 'r) \<times> 'a"
  chalice_register_blueprint ::
    "'a \<Rightarrow> nat \<Rightarrow> string option \<Rightarrow> string option \<Rightarrow> (py_error + 'r) \<times> 'a"
  blueprint_own_route :: "'a \<Rightarrow> nat \<Rightarrow> string \<Rightarrow> kwargs \<Rightarrow> (py_error + 'r) \<times> 'a"

definition call_chalice_route ::
  "('s, 'a, 'o, 'r) env \<Rightarrow> string \<Rightarrow> kwargs \<Rightarrow> ('s, 'a, 'o) world
     \<Rightarrow> (py_error + 'r) \<times> ('s, 'a, 'o) world" where
  "call_chalice_route env path kwargs w =
     (case chalice_route env (app_state w) path kwargs of
        (r, a) \<Rightarrow> (r, w\<lparr>app_state := a, calls := calls w @ [CallChaliceRoute path kwargs]\<rparr>))"

definition call_chalice_register_blueprint ::
  "('s, 'a, 'o, 'r) env \<Rightarrow> nat \<Rightarrow> string option \<Rightarrow> string option \<Rightarrow> ('s, 'a, 'o) world
     \<Rightarrow> (py_error + 'r) \<times> ('s, 'a, 'o) world" where
  "call_chalice_register_blueprint env blueprint name_prefix url_prefix w =
     (case chalice_register_blueprint env (app_state w) blueprint name_prefix url_prefix of
        (r, a) \<Rightarrow>
          (r, w\<lparr>app_state := a,
                calls := calls w @ [CallChaliceRegisterBlueprint blueprint name_prefix url_prefix]\<rparr>))"

definition call_blueprint_own_route ::
  "('s, 'a, 'o, 'r) env \<Rightarrow> nat \<Rightarrow> string \<Rightarrow> kwargs \<Rightarrow> ('s, 'a, 'o) world
     \<Rightarrow> (py_error + 'r) \<times> ('s, 'a, 'o) world" where
  "call_blueprint_own_route env blueprint path kwargs w =
     (case blueprint_own_route env (app_state w) blueprint path kwargs of
        (r, a) \<Rightarrow>
          (r, w\<lparr>app_state := a, calls := calls w @ [CallBlueprintOwnRoute blueprint path kwargs]\<rparr>))"

subsection \<open>Lines 42 to 71: the closure \<open>route\<close>\<close>

text \<open>
  Lines 67 to 69. A value that is true and is no descriptor has no
  \<^verbatim>\<open>build_operations\<close>. The spec is passed to \<^verbatim>\<open>build_operations\<close>, which may change it.
\<close>

definition register_docs ::
  "('s, 'a, 'o, 'r) env \<Rightarrow> pyval \<Rightarrow> string \<Rightarrow> string list \<Rightarrow> ('s, 'a, 'o) world
     \<Rightarrow> (py_error + unit) \<times> ('s, 'a, 'o) world" where
  "register_docs env docs path methods w =
     (if \<not> truthy docs then (Inr (), w)
      else case docs of
        PDocs d \<Rightarrow>
          (let w1 = w\<lparr>calls := calls w @ [BuildOperations d methods]\<rparr> in
           case docs_build_operations env d (spec_state w1) methods of
             (Inl e, s1) \<Rightarrow> (Inl e, w1\<lparr>spec_state := s1\<rparr>)
           | (Inr operations, s1) \<Rightarrow>
               (let w2 = w1\<lparr>spec_state := s1,
                            calls := calls w1 @ [SpecPath path operations (summary d)]\<rparr> in
                case apispec_path env s1 path operations (summary d) of
                  (r, s2) \<Rightarrow> (r, w2\<lparr>spec_state := s2\<rparr>)))
      | _ \<Rightarrow> (Inl AttributeError, w))"

text \<open>Lines 49 to 69: everything \<open>route\<close> does before it calls the original.\<close>

definition document ::
  "('s, 'a, 'o, 'r) env \<Rightarrow> bool \<Rightarrow> string \<Rightarrow> kwargs \<Rightarrow> ('s, 'a, 'o) world
     \<Rightarrow> (py_error + unit) \<times> ('s, 'a, 'o) world" where
  "document env generate_default_docs path kwargs w =
     (let docs = (case map_of kwargs ''docs'' of None \<Rightarrow> PNone | Some v \<Rightarrow> v) in
      case lowered_methods (AList.delete ''docs'' kwargs) of
        Inl e \<Rightarrow> (Inl e, w)
      | Inr methods \<Rightarrow>
          register_docs env
            (if docs = PNone \<and> generate_default_docs then PDocs (default_docs methods) else docs)
            path methods w)"

text \<open>
  The closure, with the captured \<^verbatim>\<open>original_route\<close> as an argument. \<^verbatim>\<open>kwargs.pop("docs", None)\<close>
  removes the key; what is left is what line 71 passes on.
\<close>

definition route ::
  "('s, 'a, 'o, 'r) env \<Rightarrow> bool
     \<Rightarrow> (string \<Rightarrow> kwargs \<Rightarrow> ('s, 'a, 'o) world \<Rightarrow> (py_error + 'r) \<times> ('s, 'a, 'o) world)
     \<Rightarrow> string \<Rightarrow> kwargs \<Rightarrow> ('s, 'a, 'o) world \<Rightarrow> (py_error + 'r) \<times> ('s, 'a, 'o) world" where
  "route env generate_default_docs original_route path kwargs w =
     (case document env generate_default_docs path kwargs w of
        (Inl e, w1) \<Rightarrow> (Inl e, w1)
      | (Inr u, w1) \<Rightarrow> original_route path (AList.delete ''docs'' kwargs) w1)"

primrec call_route ::
  "('s, 'a, 'o, 'r) env \<Rightarrow> route_fn
     \<Rightarrow> string \<Rightarrow> kwargs \<Rightarrow> ('s, 'a, 'o) world \<Rightarrow> (py_error + 'r) \<times> ('s, 'a, 'o) world" where
  "call_route env ChaliceRoute = call_chalice_route env"
| "call_route env (RouteClosure generate_default_docs original_route) =
     route env generate_default_docs (call_route env original_route)"

subsection \<open>Lines 73 to 91: blueprints\<close>

text \<open>
  \<^verbatim>\<open>prefix_url + path\<close>: with \<^verbatim>\<open>prefix_url\<close> \<^verbatim>\<open>None\<close> the addition raises \<^verbatim>\<open>TypeError\<close>.
\<close>

definition inner_route ::
  "string option
     \<Rightarrow> (string \<Rightarrow> kwargs \<Rightarrow> ('s, 'a, 'o) world \<Rightarrow> (py_error + 'r) \<times> ('s, 'a, 'o) world)
     \<Rightarrow> string \<Rightarrow> kwargs \<Rightarrow> ('s, 'a, 'o) world \<Rightarrow> (py_error + 'r) \<times> ('s, 'a, 'o) world" where
  "inner_route prefix_url route_closure path kwargs w =
     (case prefix_url of
        None \<Rightarrow> (Inl TypeError, w)
      | Some p \<Rightarrow> route_closure (p @ path) kwargs w)"

definition blueprint_route :: "route_fn \<Rightarrow> string option \<Rightarrow> blueprint_route_fn" where
  "blueprint_route route_closure prefix_url = InnerRoute prefix_url route_closure"

primrec call_blueprint_route ::
  "('s, 'a, 'o, 'r) env \<Rightarrow> nat \<Rightarrow> blueprint_route_fn
     \<Rightarrow> string \<Rightarrow> kwargs \<Rightarrow> ('s, 'a, 'o) world \<Rightarrow> (py_error + 'r) \<times> ('s, 'a, 'o) world" where
  "call_blueprint_route env blueprint BlueprintOwnRoute = call_blueprint_own_route env blueprint"
| "call_blueprint_route env blueprint (InnerRoute prefix_url route_closure) =
     inner_route prefix_url (call_route env route_closure)"

definition register_blueprint ::
  "route_fn
     \<Rightarrow> (nat \<Rightarrow> string option \<Rightarrow> string option \<Rightarrow> ('s, 'a, 'o) world
          \<Rightarrow> (py_error + 'r) \<times> ('s, 'a, 'o) world)
     \<Rightarrow> nat \<Rightarrow> string option \<Rightarrow> string option \<Rightarrow> ('s, 'a, 'o) world
     \<Rightarrow> (py_error + 'r) \<times> ('s, 'a, 'o) world" where
  "register_blueprint route_closure original_register_blueprint blueprint name_prefix url_prefix w =
     original_register_blueprint blueprint name_prefix url_prefix
       (w\<lparr>blueprint_route_attr :=
            (blueprint_route_attr w)(blueprint := blueprint_route route_closure url_prefix)\<rparr>)"

primrec call_register_blueprint ::
  "('s, 'a, 'o, 'r) env \<Rightarrow> register_fn
     \<Rightarrow> nat \<Rightarrow> string option \<Rightarrow> string option \<Rightarrow> ('s, 'a, 'o) world
     \<Rightarrow> (py_error + 'r) \<times> ('s, 'a, 'o) world" where
  "call_register_blueprint env ChaliceRegisterBlueprint = call_chalice_register_blueprint env"
| "call_register_blueprint env (RegisterBlueprintClosure route_closure original) =
     register_blueprint route_closure (call_register_blueprint env original)"

subsection \<open>Lines 30 to 94: \<open>init_spec\<close>\<close>

text \<open>
  \<^verbatim>\<open>spec.options.pop("chalice_app")\<close> has no default: a missing key raises \<^verbatim>\<open>KeyError\<close>.
  A value that is no application has no \<^verbatim>\<open>route\<close> to read at line 40.
\<close>

definition init_spec ::
  "bool \<Rightarrow> ('s, 'a, 'o) world \<Rightarrow> (py_error + unit) \<times> ('s, 'a, 'o) world" where
  "init_spec generate_default_docs w =
     (case map_of (spec_options w) ''chalice_app'' of
        None \<Rightarrow> (Inl (KeyError ''chalice_app''), w)
      | Some chalice_app \<Rightarrow>
          (let w1 = w\<lparr>spec_options := AList.delete ''chalice_app'' (spec_options w)\<rparr> in
           case chalice_app of
             PApp \<Rightarrow>
               (let original_route = app_route w1;
                    route_closure = RouteClosure generate_default_docs original_route;
                    original_register_blueprint = app_register_blueprint w1
                in (Inr (),
                    w1\<lparr>app_route := route_closure,
                       app_register_blueprint :=
                         RegisterBlueprintClosure route_closure original_register_blueprint\<rparr>))
           | _ \<Rightarrow> (Inl AttributeError, w1)))"

subsection \<open>Observing a call\<close>

text \<open>The calls to collaborators made between two states of the world.\<close>

definition new_calls :: "('s, 'a, 'o) world \<Rightarrow> ('s, 'a, 'o) world \<Rightarrow> 'o event list" where
  "new_calls w w' = drop (length (calls w)) (calls w')"

fun is_route_call :: "'o event \<Rightarrow> bool" where
  "is_route_call (CallChaliceRoute path kwargs) = True"
| "is_route_call e = False"

text \<open>The path an event hands to apispec or to Chalice's route registration.\<close>

fun event_path :: "'o event \<Rightarrow> string option" where
  "event_path (SpecPath path operations summ) = Some path"
| "event_path (CallChaliceRoute path kwargs) = Some path"
| "event_path e = None"

subsection \<open>A concrete world\<close>

text \<open>
  Collaborators that succeed: the conversion keeps the methods the descriptor has an entry
  for, the spec collects paths with their operations, the framework collects paths and
  returns how many it had.
\<close>

definition example_env :: "((string \<times> string list) list, string list, string list, nat) env" where
  "example_env =
     \<lparr> docs_build_operations =
         (\<lambda>d s methods. (Inr (filter (\<lambda>m. m \<in> fst ` set (entries d)) methods), s)),
       apispec_path = (\<lambda>s path operations summ. (Inr (), s @ [(path, operations)])),
       chalice_route = (\<lambda>a path kwargs. (Inr (length a), a @ [path])),
       chalice_register_blueprint = (\<lambda>a blueprint name_prefix url_prefix. (Inr 0, a)),
       blueprint_own_route = (\<lambda>a blueprint path kwargs. (Inr 0, a)) \<rparr>"

text \<open>The same, with a conversion that raises.\<close>

definition failing_env :: "((string \<times> string list) list, string list, string list, nat) env" where
  "failing_env =
     example_env\<lparr>docs_build_operations := (\<lambda>d s methods. (Inl (Raised ''conversion''), s))\<rparr>"

definition example_world :: "((string \<times> string list) list, string list, string list) world" where
  "example_world =
     \<lparr> spec_options = [(''chalice_app'', PApp)], spec_state = [], app_state = [],
       app_route = ChaliceRoute, app_register_blueprint = ChaliceRegisterBlueprint,
       blueprint_route_attr = (\<lambda>b. BlueprintOwnRoute), calls = [] \<rparr>"

definition post_docs :: docs where
  "post_docs =
     \<lparr> entries = [(''post'', \<lparr>response = Some (Model ''Item''), request = Some (Model ''Item'')\<rparr>)],
       summary = None \<rparr>"

definition example_kwargs :: kwargs where
  "example_kwargs =
     [(''methods'', PList [PStr ''POST'']), (''docs'', PDocs post_docs), (''cors'', PBool True)]"

definition mixed_kwargs :: kwargs where
  "mixed_kwargs = [(''methods'', PList [PStr ''POST'', PStr ''Get'', PStr ''DELETE''])]"



section \<open>Properties\<close>

subsection \<open>What a call leaves in the world\<close>

lemma lower_char_idem: "lower_char (lower_char c) = lower_char c"
  by (simp add: lower_char_def Let_def)

lemma lower_idem: "lower (lower s) = lower s"
  by (simp add: lower_def lower_char_idem)

lemma lower_each_strs: "lower_each (map PStr ms) = Inr (map lower ms)"
  by (induction ms) simp_all

lemma lowered_methods_delete_docs:
  "lowered_methods (AList.delete ''docs'' kwargs) = lowered_methods kwargs"
  by (simp add: lowered_methods_def)

lemma new_calls_append: "calls w' = calls w @ evs \<Longrightarrow> new_calls w w' = evs"
  by (simp add: new_calls_def)

lemma register_docs_app_state:
  "app_state (snd (register_docs env d path methods w)) = app_state w"
  by (simp add: register_docs_def Let_def split: pyval.splits prod.splits sum.splits)

lemma register_docs_calls:
  "\<exists>evs. calls (snd (register_docs env d path methods w)) = calls w @ evs
     \<and> (\<forall>e\<in>set evs. \<not> is_route_call e \<and> (event_path e = None \<or> event_path e = Some path)
            \<and> (\<forall>d' ms. e = BuildOperations d' ms \<longrightarrow> ms = methods))"
proof (cases "truthy d")
  case False
  then show ?thesis by (simp add: register_docs_def)
next
  case True
  show ?thesis
  proof (cases d)
    case (PDocs x)
    obtain r s1 where b: "docs_build_operations env x (spec_state w) methods = (r, s1)"
      by (cases "docs_build_operations env x (spec_state w) methods")
    show ?thesis
    proof (cases r)
      case (Inl e)
      then have "calls (snd (register_docs env d path methods w)) = calls w @ [BuildOperations x methods]"
        using PDocs b by (simp add: register_docs_def)
      then show ?thesis by simp
    next
      case (Inr ops)
      obtain r2 s2 where p: "apispec_path env s1 path ops (summary x) = (r2, s2)"
        by (cases "apispec_path env s1 path ops (summary x)")
      have "calls (snd (register_docs env d path methods w))
          = calls w @ [BuildOperations x methods, SpecPath path ops (summary x)]"
        using PDocs b Inr p by (simp add: register_docs_def)
      then show ?thesis by simp
    qed
  qed (use True in \<open>simp_all add: register_docs_def\<close>)
qed

lemma document_app_state:
  "app_state (snd (document env gen path kwargs w)) = app_state w"
  by (simp add: document_def Let_def register_docs_app_state split: sum.splits)

lemma document_calls:
  "\<exists>evs. calls (snd (document env gen path kwargs w)) = calls w @ evs
     \<and> (\<forall>e\<in>set evs. \<not> is_route_call e \<and> (event_path e = None \<or> event_path e = Some path)
            \<and> (\<forall>d' ms. e = BuildOperations d' ms \<longrightarrow> lowered_methods kwargs = Inr ms))"
proof (cases "lowered_methods (AList.delete ''docs'' kwargs)")
  case (Inl e)
  then show ?thesis by (simp add: document_def)
next
  case (Inr methods)
  let ?d = "if (case map_of kwargs ''docs'' of None \<Rightarrow> PNone | Some v \<Rightarrow> v) = PNone \<and> gen
            then PDocs (default_docs methods)
            else (case map_of kwargs ''docs'' of None \<Rightarrow> PNone | Some v \<Rightarrow> v)"
  have eq: "document env gen path kwargs w = register_docs env ?d path methods w"
    using Inr by (simp add: document_def Let_def)
  have m: "lowered_methods kwargs = Inr methods"
    using Inr by (simp add: lowered_methods_delete_docs)
  obtain evs where evs: "calls (snd (register_docs env ?d path methods w)) = calls w @ evs"
    and ok: "\<forall>e\<in>set evs. \<not> is_route_call e \<and> (event_path e = None \<or> event_path e = Some path)
            \<and> (\<forall>d' ms. e = BuildOperations d' ms \<longrightarrow> ms = methods)"
    using register_docs_calls [of env ?d path methods w] by blast
  have "calls (snd (document env gen path kwargs w)) = calls w @ evs"
    using evs by (simp only: eq)
  moreover have "\<forall>e\<in>set evs. \<not> is_route_call e \<and> (event_path e = None \<or> event_path e = Some path)
            \<and> (\<forall>d' ms. e = BuildOperations d' ms \<longrightarrow> lowered_methods kwargs = Inr ms)"
    using ok by (simp add: m)
  ultimately show ?thesis by blast
qed

lemma route_unfold:
  "route env gen original_route path kwargs w =
     (case fst (document env gen path kwargs w) of
        Inl e \<Rightarrow> (Inl e, snd (document env gen path kwargs w))
      | Inr u \<Rightarrow> original_route path (AList.delete ''docs'' kwargs) (snd (document env gen path kwargs w)))"
  by (simp add: route_def split: prod.splits sum.splits)

lemma call_chalice_route_calls:
  "calls (snd (call_chalice_route env path kwargs w)) = calls w @ [CallChaliceRoute path kwargs]"
  by (simp add: call_chalice_route_def split: prod.splits)

lemma call_chalice_route_fst:
  "fst (call_chalice_route env path kwargs w) = fst (chalice_route env (app_state w) path kwargs)"
  by (simp add: call_chalice_route_def split: prod.splits)

lemma call_chalice_route_spec_state:
  "spec_state (snd (call_chalice_route env path kwargs w)) = spec_state w"
  by (simp add: call_chalice_route_def split: prod.splits)

lemma route_trace:
  "\<exists>evs. calls (snd (route env gen (call_chalice_route env) path kwargs w)) = calls w @ evs
     \<and> (\<forall>e\<in>set evs. (is_route_call e \<longrightarrow> e = CallChaliceRoute path (AList.delete ''docs'' kwargs))
            \<and> (event_path e = None \<or> event_path e = Some path)
            \<and> (\<forall>d' ms. e = BuildOperations d' ms \<longrightarrow> lowered_methods kwargs = Inr ms))"
proof -
  obtain evs where evs: "calls (snd (document env gen path kwargs w)) = calls w @ evs"
    and ok: "\<forall>e\<in>set evs. \<not> is_route_call e \<and> (event_path e = None \<or> event_path e = Some path)
            \<and> (\<forall>d' ms. e = BuildOperations d' ms \<longrightarrow> lowered_methods kwargs = Inr ms)"
    using document_calls [of env gen path kwargs w] by blast
  show ?thesis
  proof (cases "fst (document env gen path kwargs w)")
    case (Inl e)
    then have "calls (snd (route env gen (call_chalice_route env) path kwargs w)) = calls w @ evs"
      using evs by (simp add: route_unfold)
    moreover have "\<forall>e\<in>set evs. (is_route_call e \<longrightarrow> e = CallChaliceRoute path (AList.delete ''docs'' kwargs))
            \<and> (event_path e = None \<or> event_path e = Some path)
            \<and> (\<forall>d' ms. e = BuildOperations d' ms \<longrightarrow> lowered_methods kwargs = Inr ms)"
      using ok by simp
    ultimately show ?thesis by blast
  next
    case (Inr u)
    then have "calls (snd (route env gen (call_chalice_route env) path kwargs w))
        = calls w @ evs @ [CallChaliceRoute path (AList.delete ''docs'' kwargs)]"
      using evs by (simp add: route_unfold call_chalice_route_calls)
    moreover have "\<forall>e\<in>set (evs @ [CallChaliceRoute path (AList.delete ''docs'' kwargs)]).
            (is_route_call e \<longrightarrow> e = CallChaliceRoute path (AList.delete ''docs'' kwargs))
            \<and> (event_path e = None \<or> event_path e = Some path)
            \<and> (\<forall>d' ms. e = BuildOperations d' ms \<longrightarrow> lowered_methods kwargs = Inr ms)"
      using ok by simp
    ultimately show ?thesis by blast
  qed
qed



lemma document_methods_list:
  "document env gen path (AList.update ''methods'' (PList (map PStr ms)) kwargs) w =
     register_docs env
       (if (case map_of kwargs ''docs'' of None \<Rightarrow> PNone | Some v \<Rightarrow> v) = PNone \<and> gen
        then PDocs (default_docs (map lower ms))
        else (case map_of kwargs ''docs'' of None \<Rightarrow> PNone | Some v \<Rightarrow> v))
       path (map lower ms) w"
proof -
  have "lowered_methods (AList.update ''methods'' (PList (map PStr ms)) kwargs) = Inr (map lower ms)"
    by (simp add: lowered_methods_def update_conv' lower_each_strs)
  then show ?thesis
    by (simp add: document_def Let_def lowered_methods_delete_docs update_conv')
qed

lemma route_spec_state:
  "spec_state (snd (route env gen (call_chalice_route env) path kwargs w))
     = spec_state (snd (document env gen path kwargs w))"
  by (cases "fst (document env gen path kwargs w)")
     (simp_all add: route_unfold call_chalice_route_spec_state)

lemma blueprint_route_attr_after_register:
  "blueprint_route_attr
     (snd (register_blueprint route_closure (call_chalice_register_blueprint env)
             blueprint name_prefix url_prefix w)) blueprint
     = InnerRoute url_prefix route_closure"
  by (simp add: register_blueprint_def call_chalice_register_blueprint_def blueprint_route_def
      split: prod.splits)

subsection \<open>Lower-casing and casing\<close>

lemma code_lower_char:
  "(of_char (lower_char c) :: nat) = (if capital c then of_char c + 32 else of_char c)"
proof (cases "capital c")
  case True
  then have "(of_char c :: nat) + 32 < 256"
    by (auto simp add: capital_def Let_def)
  moreover have "lower_char c = char_of ((of_char c :: nat) + 32)"
    using True by (simp add: lower_char_def capital_def Let_def)
  ultimately show ?thesis
    using True by (simp add: of_char_of)
next
  case False
  then have "lower_char c = c"
    by (auto simp add: lower_char_def capital_def Let_def)
  then show ?thesis using False by simp
qed

lemma same_letter_lower_char: "same_letter c d \<longleftrightarrow> lower_char c = lower_char d"
proof -
  let ?a = "of_char c :: nat" and ?b = "of_char d :: nat"
  have "lower_char c = lower_char d
      \<longleftrightarrow> (of_char (lower_char c) :: nat) = of_char (lower_char d)"
    by simp
  also have "\<dots> \<longleftrightarrow> (if capital c then ?a + 32 else ?a) = (if capital d then ?b + 32 else ?b)"
    by (simp only: code_lower_char)
  also have "\<dots> \<longleftrightarrow> (?a = ?b \<or> (capital c \<and> ?b = ?a + 32) \<or> (capital d \<and> ?a = ?b + 32))"
    unfolding capital_def Let_def by presburger
  also have "\<dots> \<longleftrightarrow> same_letter c d"
    by (simp add: same_letter_def)
  finally show ?thesis by simp
qed


lemma map_eq_iff_list_all2:
  "map f s = map f t \<longleftrightarrow> list_all2 (\<lambda>x y. f x = f y) s t"
proof (induction s arbitrary: t)
  case Nil
  then show ?case by simp
next
  case (Cons x s)
  then show ?case by (cases t) simp_all
qed

lemma differ_in_casing_only_lower: "differ_in_casing_only s t \<longleftrightarrow> lower s = lower t"
proof -
  have "same_letter = (\<lambda>x y. lower_char x = lower_char y)"
    by (intro ext) (rule same_letter_lower_char)
  then show ?thesis
    by (simp add: differ_in_casing_only_def lower_def map_eq_iff_list_all2)
qed



lemma alphabet_casing:
  "differ_in_casing_only ''ABCDEFGHIJKLMNOPQRSTUVWXYZ'' ''abcdefghijklmnopqrstuvwxyz''
   \<and> lower ''ABCDEFGHIJKLMNOPQRSTUVWXYZ'' = ''abcdefghijklmnopqrstuvwxyz''"
  by code_simp

lemma accented_casing:
  "lower [CHR 0xC9] = [CHR 0xE9] \<and> lower [CHR 0xD7] = [CHR 0xD7] \<and> lower [CHR 0xDF] = [CHR 0xDF]"
  by code_simp




lemma casing_only_lists:
  "list_all2 differ_in_casing_only ms1 ms2 \<longleftrightarrow> map lower ms1 = map lower ms2"
proof -
  have "differ_in_casing_only = (\<lambda>s t. lower s = lower t)"
    by (intro ext) (rule differ_in_casing_only_lower)
  then show ?thesis
    by (simp add: map_eq_iff_list_all2)
qed

subsection \<open>The original registration\<close>

text \<open>
  C1, as the code has it. When everything \<open>route\<close> does before line 71 (reading the
  methods, the conversion of the descriptor, the registration in the spec) raises no
  exception, Chalice's route registration is called exactly once, as the last call, after
  every call made for the documentation: whether the descriptor was given, absent or
  synthesized. The claim as stated promises this for every call; a call whose documentation
  raises never reaches line 71.
\<close>

theorem route_calls_original_once:
  "fst (document env generate_default_docs path kwargs w) = Inr () \<Longrightarrow>
     (let w1 = snd (document env generate_default_docs path kwargs w);
          w' = snd (route env generate_default_docs (call_chalice_route env) path kwargs w)
      in new_calls w w' = new_calls w w1 @ [CallChaliceRoute path (AList.delete ''docs'' kwargs)]
         \<and> (\<forall>e\<in>set (new_calls w w1). \<not> is_route_call e)
         \<and> length (filter is_route_call (new_calls w w')) = 1)"
proof -
  assume ok: "fst (document env generate_default_docs path kwargs w) = Inr ()"
  let ?w1 = "snd (document env generate_default_docs path kwargs w)"
  let ?w' = "snd (route env generate_default_docs (call_chalice_route env) path kwargs w)"
  obtain evs where evs: "calls ?w1 = calls w @ evs"
    and quiet: "\<forall>e\<in>set evs. \<not> is_route_call e"
    using document_calls [of env generate_default_docs path kwargs w] by blast
  have "calls ?w' = calls ?w1 @ [CallChaliceRoute path (AList.delete ''docs'' kwargs)]"
    using ok by (simp add: route_unfold call_chalice_route_calls)
  then have all: "calls ?w' = calls w @ evs @ [CallChaliceRoute path (AList.delete ''docs'' kwargs)]"
    using evs by simp
  have n1: "new_calls w ?w1 = evs"
    using evs by (rule new_calls_append)
  have n': "new_calls w ?w' = evs @ [CallChaliceRoute path (AList.delete ''docs'' kwargs)]"
    using all by (rule new_calls_append)
  have "filter is_route_call evs = []"
    using quiet by (simp add: filter_empty_conv)
  then have "length (filter is_route_call (new_calls w ?w')) = 1"
    by (simp add: n')
  then show ?thesis
    using n1 n' quiet by (simp add: Let_def)
qed

theorem route_calls_original_once_witness:
  "fst (document example_env False ''/hello'' example_kwargs example_world) = Inr ()
   \<and> length (filter is_route_call (new_calls example_world
        (snd (route example_env False (call_chalice_route example_env) ''/hello'' example_kwargs
           example_world)))) = 1"
proof -
  have h: "fst (document example_env False ''/hello'' example_kwargs example_world) = Inr ()"
    by code_simp
  show ?thesis
    using h route_calls_original_once [OF h] by (simp add: Let_def)
qed

text \<open>
  C1 as stated fails where the conversion of a given descriptor raises: the exception
  leaves \<open>route\<close> and the original registration is called zero times.
\<close>

theorem route_calls_original_once_counterexample:
  "fst (route failing_env False (call_chalice_route failing_env) ''/hello'' example_kwargs
          example_world) = Inl (Raised ''conversion'')
   \<and> \<not> length (filter is_route_call (new_calls example_world
          (snd (route failing_env False (call_chalice_route failing_env) ''/hello'' example_kwargs
             example_world)))) = 1"
  by code_simp

text \<open>
  C2. Whatever value the intercepted \<open>route\<close> returns is the value Chalice's route
  registration returns, in the state the application was in, for the same path and the
  options without the key \<open>docs\<close>; and once the documentation has raised nothing, the
  outcome of \<open>route\<close> (value or exception) is the outcome of that registration.
\<close>

theorem route_returns_original_value:
  "(fst (route env generate_default_docs (call_chalice_route env) path kwargs w) = Inr v
      \<longrightarrow> fst (chalice_route env (app_state w) path (AList.delete ''docs'' kwargs)) = Inr v)
   \<and> (fst (document env generate_default_docs path kwargs w) = Inr ()
      \<longrightarrow> fst (route env generate_default_docs (call_chalice_route env) path kwargs w)
          = fst (chalice_route env (app_state w) path (AList.delete ''docs'' kwargs)))"
  by (cases "fst (document env generate_default_docs path kwargs w)")
     (simp_all add: route_unfold call_chalice_route_fst document_app_state)

theorem route_returns_original_value_witness:
  "fst (route example_env False (call_chalice_route example_env) ''/hello'' example_kwargs
          example_world) = Inr 0
   \<and> fst (document example_env False ''/hello'' example_kwargs example_world) = Inr ()
   \<and> fst (chalice_route example_env (app_state example_world) ''/hello''
          (AList.delete ''docs'' example_kwargs)) = Inr 0"
proof -
  have h: "fst (route example_env False (call_chalice_route example_env) ''/hello'' example_kwargs
          example_world) = Inr 0"
    by code_simp
  have d: "fst (document example_env False ''/hello'' example_kwargs example_world) = Inr ()"
    by code_simp
  show ?thesis
    using h d route_returns_original_value
      [of example_env False "''/hello''" example_kwargs example_world 0]
    by simp
qed

subsection \<open>Blueprints\<close>

text \<open>
  C3, where the code departs from it. \<^verbatim>\<open>register_blueprint\<close> declares
  \<^verbatim>\<open>url_prefix: Optional[str] = None\<close> and hands the value as it is to
  \<^verbatim>\<open>blueprint_route\<close>, whose parameter is annotated \<^verbatim>\<open>str\<close>. After an installation and
  a registration of blueprint 0 with no URL prefix, the blueprint's \<open>route\<close> is the
  closure over \<^verbatim>\<open>None\<close>; declaring \<^verbatim>\<open>/items\<close> on it raises \<^verbatim>\<open>TypeError\<close> at
  \<^verbatim>\<open>prefix_url + path\<close>, and neither the spec nor Chalice receives any path. No empty
  string stands in for the missing prefix.
\<close>

theorem blueprint_without_prefix_raises:
  "(let w1 = snd (init_spec True example_world);
        w2 = snd (call_register_blueprint example_env (app_register_blueprint w1) 0 None None w1);
        r = call_blueprint_route example_env 0 (blueprint_route_attr w2 0) ''/items''
              mixed_kwargs w2
    in fst (init_spec True example_world) = Inr ()
       \<and> blueprint_route_attr w2 0 = InnerRoute None (RouteClosure True ChaliceRoute)
       \<and> fst r = Inl TypeError
       \<and> new_calls w2 (snd r) = [])"
  by code_simp

text \<open>
  C10. After a registration with URL prefix \<open>p\<close> the blueprint's \<open>route\<close> is the closure
  over \<open>p\<close>; calling it with \<open>q\<close> is calling the intercepted \<open>route\<close> with the plain
  concatenation \<open>p @ q\<close>, and every path that reaches the spec or Chalice is \<open>p @ q\<close>.
  Nothing is inserted or normalized: the witness registers \<^verbatim>\<open>/v1//items\<close> from
  \<^verbatim>\<open>/v1/\<close> and \<^verbatim>\<open>/items\<close>.
\<close>

theorem blueprint_path_concatenation:
  "blueprint_route_attr
     (snd (register_blueprint route_closure (call_chalice_register_blueprint env)
             blueprint name_prefix (Some p) w)) blueprint
     = InnerRoute (Some p) route_closure
   \<and> call_blueprint_route env blueprint (InnerRoute (Some p) route_closure) q kwargs w'
       = call_route env route_closure (p @ q) kwargs w'
   \<and> (\<forall>e\<in>set (new_calls w'
          (snd (call_blueprint_route env blueprint
                  (InnerRoute (Some p) (RouteClosure generate_default_docs ChaliceRoute))
                  q kwargs w'))).
         \<forall>path. event_path e = Some path \<longrightarrow> path = p @ q)"
proof -
  have c: "call_blueprint_route env blueprint (InnerRoute (Some p) rc) q kwargs w'
       = call_route env rc (p @ q) kwargs w'" for rc
    by (simp add: inner_route_def)
  have c2: "call_blueprint_route env blueprint
                  (InnerRoute (Some p) (RouteClosure generate_default_docs ChaliceRoute))
                  q kwargs w'
       = route env generate_default_docs (call_chalice_route env) (p @ q) kwargs w'"
    by (simp add: inner_route_def)
  obtain evs where evs:
    "calls (snd (route env generate_default_docs (call_chalice_route env) (p @ q) kwargs w'))
       = calls w' @ evs"
    and ok: "\<forall>e\<in>set evs. event_path e = None \<or> event_path e = Some (p @ q)"
    using route_trace [of env generate_default_docs "p @ q" kwargs w'] by blast
  have n: "new_calls w'
          (snd (call_blueprint_route env blueprint
                  (InnerRoute (Some p) (RouteClosure generate_default_docs ChaliceRoute))
                  q kwargs w')) = evs"
    unfolding c2 using evs by (rule new_calls_append)
  have "\<forall>e\<in>set evs. \<forall>path. event_path e = Some path \<longrightarrow> path = p @ q"
    using ok by auto
  then have paths: "\<forall>e\<in>set (new_calls w'
          (snd (call_blueprint_route env blueprint
                  (InnerRoute (Some p) (RouteClosure generate_default_docs ChaliceRoute))
                  q kwargs w'))).
         \<forall>path. event_path e = Some path \<longrightarrow> path = p @ q"
    by (simp only: n)
  show ?thesis
    by (intro conjI) (rule blueprint_route_attr_after_register, rule c, rule paths)
qed

theorem blueprint_path_concatenation_witness:
  "new_calls example_world
     (snd (call_blueprint_route example_env 0 (InnerRoute (Some ''/v1/'') (RouteClosure False ChaliceRoute))
             ''/items'' example_kwargs example_world))
     = [BuildOperations post_docs [''post''], SpecPath ''/v1//items'' [''post''] None,
        CallChaliceRoute ''/v1//items'' [(''methods'', PList [PStr ''POST'']), (''cors'', PBool True)]]
   \<and> ''/v1//items'' = ''/v1/'' @ ''/items''"
proof -
  let ?k = "[(''methods'', PList [PStr ''POST'']), (''cors'', PBool True)]"
  let ?w' = "snd (call_blueprint_route example_env 0
                (InnerRoute (Some ''/v1/'') (RouteClosure False ChaliceRoute))
                ''/items'' example_kwargs example_world)"
  have n: "new_calls example_world ?w'
     = [BuildOperations post_docs [''post''], SpecPath ''/v1//items'' [''post''] None,
        CallChaliceRoute ''/v1//items'' ?k]"
    by code_simp
  have m: "CallChaliceRoute ''/v1//items'' ?k \<in> set (new_calls example_world ?w')"
    by (simp only: n list.set insert_iff simp_thms)
  have t: "\<forall>e\<in>set (new_calls example_world ?w').
         \<forall>path. event_path e = Some path \<longrightarrow> path = ''/v1/'' @ ''/items''"
    by (rule conjunct2 [OF conjunct2 [OF blueprint_path_concatenation
      [of ChaliceRoute example_env 0 None "''/v1/''" example_world "''/items''" example_kwargs
          example_world False]]])
  have "\<forall>path. event_path (CallChaliceRoute ''/v1//items'' ?k :: string list event) = Some path
          \<longrightarrow> path = ''/v1/'' @ ''/items''"
    by (rule bspec [OF t m])
  then have "''/v1//items'' = ''/v1/'' @ ''/items''"
    by (simp only: event_path.simps option.inject simp_thms)
  with n show ?thesis by (simp only: simp_thms)
qed

subsection \<open>Installation\<close>

text \<open>
  C4. Without the key \<^verbatim>\<open>chalice_app\<close> in the options of the spec, \<open>init_spec\<close> raises
  (\<^verbatim>\<open>KeyError\<close>, from \<^verbatim>\<open>pop\<close> without a default) and leaves the whole world as it was: the
  application keeps its \<open>route\<close> and its \<open>register_blueprint\<close>. With the application
  under that key, the installation succeeds, the key is gone from the options, every other
  option is kept, both functions of the application are replaced by closures over the
  previous ones, and the reference cannot be consumed a second time: another \<open>init_spec\<close>
  on the resulting world raises and changes nothing.
\<close>

theorem init_spec_requires_app:
  "(map_of (spec_options w) ''chalice_app'' = None \<longrightarrow>
      init_spec generate_default_docs w = (Inl (KeyError ''chalice_app''), w))
   \<and> (map_of (spec_options w) ''chalice_app'' = Some PApp \<longrightarrow>
      (let w' = snd (init_spec generate_default_docs w) in
         fst (init_spec generate_default_docs w) = Inr ()
         \<and> spec_options w' = AList.delete ''chalice_app'' (spec_options w)
         \<and> map_of (spec_options w') ''chalice_app'' = None
         \<and> app_route w' = RouteClosure generate_default_docs (app_route w)
         \<and> app_register_blueprint w'
             = RegisterBlueprintClosure (RouteClosure generate_default_docs (app_route w))
                 (app_register_blueprint w)
         \<and> init_spec again w' = (Inl (KeyError ''chalice_app''), w')))"
  by (simp add: init_spec_def Let_def delete_conv')

theorem init_spec_requires_app_witness:
  "map_of (spec_options (example_world\<lparr>spec_options := []\<rparr>)) ''chalice_app'' = None
   \<and> fst (init_spec True (example_world\<lparr>spec_options := []\<rparr>)) = Inl (KeyError ''chalice_app'')
   \<and> app_route (snd (init_spec True (example_world\<lparr>spec_options := []\<rparr>))) = ChaliceRoute
   \<and> app_register_blueprint (snd (init_spec True (example_world\<lparr>spec_options := []\<rparr>)))
        = ChaliceRegisterBlueprint
   \<and> map_of (spec_options example_world) ''chalice_app'' = Some PApp
   \<and> fst (init_spec True example_world) = Inr ()
   \<and> spec_options (snd (init_spec True example_world)) = []
   \<and> app_route (snd (init_spec True example_world)) = RouteClosure True ChaliceRoute"
proof -
  have a: "map_of (spec_options (example_world\<lparr>spec_options := []\<rparr>)) ''chalice_app'' = None"
    by simp
  have p: "map_of (spec_options example_world) ''chalice_app'' = Some PApp"
    by (simp add: example_world_def)
  have "init_spec True (example_world\<lparr>spec_options := []\<rparr>)
          = (Inl (KeyError ''chalice_app''), example_world\<lparr>spec_options := []\<rparr>)"
    using a init_spec_requires_app [of "example_world\<lparr>spec_options := []\<rparr>" True] by blast
  then have 1: "fst (init_spec True (example_world\<lparr>spec_options := []\<rparr>)) = Inl (KeyError ''chalice_app'')
   \<and> app_route (snd (init_spec True (example_world\<lparr>spec_options := []\<rparr>))) = ChaliceRoute
   \<and> app_register_blueprint (snd (init_spec True (example_world\<lparr>spec_options := []\<rparr>)))
        = ChaliceRegisterBlueprint"
    by (simp add: example_world_def)
  have 2: "fst (init_spec True example_world) = Inr ()
   \<and> spec_options (snd (init_spec True example_world)) = []
   \<and> app_route (snd (init_spec True example_world)) = RouteClosure True ChaliceRoute"
    using p init_spec_requires_app [of example_world True]
    by (simp add: Let_def example_world_def)
  from a p 1 2 show ?thesis by (simp only: simp_thms)
qed

subsection \<open>The synthesized descriptor\<close>



subsection \<open>What the framework receives\<close>

text \<open>
  C6. Whenever Chalice's route registration is called by the intercepted \<open>route\<close>, the
  options it receives are the supplied ones with the key \<open>docs\<close> deleted: the key is not
  among them, and every other key has the value it was supplied with (the order of the
  options is kept as well).
\<close>

theorem docs_key_stripped:
  "\<forall>e\<in>set (new_calls w
        (snd (route env generate_default_docs (call_chalice_route env) path kwargs w))).
     \<forall>p k. e = CallChaliceRoute p k \<longrightarrow>
       k = AList.delete ''docs'' kwargs
       \<and> ''docs'' \<notin> fst ` set k
       \<and> (\<forall>key. key \<noteq> ''docs'' \<longrightarrow> map_of k key = map_of kwargs key)"
proof -
  obtain evs where evs:
    "calls (snd (route env generate_default_docs (call_chalice_route env) path kwargs w))
       = calls w @ evs"
    and ok: "\<forall>e\<in>set evs. is_route_call e \<longrightarrow> e = CallChaliceRoute path (AList.delete ''docs'' kwargs)"
    using route_trace [of env generate_default_docs path kwargs w] by blast
  have n: "new_calls w
        (snd (route env generate_default_docs (call_chalice_route env) path kwargs w)) = evs"
    using evs by (rule new_calls_append)
  show ?thesis
    unfolding n
  proof (intro ballI allI impI)
    fix e p k
    assume "e \<in> set evs" and e: "e = CallChaliceRoute p k"
    with ok have "k = AList.delete ''docs'' kwargs" by auto
    then show "k = AList.delete ''docs'' kwargs \<and> ''docs'' \<notin> fst ` set k
       \<and> (\<forall>key. key \<noteq> ''docs'' \<longrightarrow> map_of k key = map_of kwargs key)"
      by (simp add: delete_notin_dom)
  qed
qed

theorem docs_key_stripped_witness:
  "new_calls example_world
        (snd (route example_env False (call_chalice_route example_env) ''/hello'' example_kwargs
           example_world))
     = [BuildOperations post_docs [''post''], SpecPath ''/hello'' [''post''] None,
        CallChaliceRoute ''/hello'' [(''methods'', PList [PStr ''POST'']), (''cors'', PBool True)]]
   \<and> [(''methods'', PList [PStr ''POST'']), (''cors'', PBool True)]
        = AList.delete ''docs'' example_kwargs
   \<and> ''docs'' \<notin> fst ` set [(''methods'', PList [PStr ''POST'']), (''cors'', PBool True)]"
proof -
  let ?k = "[(''methods'', PList [PStr ''POST'']), (''cors'', PBool True)]"
  let ?w' = "snd (route example_env False (call_chalice_route example_env) ''/hello''
                example_kwargs example_world)"
  have n: "new_calls example_world ?w'
     = [BuildOperations post_docs [''post''], SpecPath ''/hello'' [''post''] None,
        CallChaliceRoute ''/hello'' ?k]"
    by code_simp
  have mem: "CallChaliceRoute ''/hello'' ?k \<in> set (new_calls example_world ?w')"
    by (simp only: n list.set insert_iff simp_thms)
  have "\<forall>p k. (CallChaliceRoute ''/hello'' ?k :: string list event) = CallChaliceRoute p k \<longrightarrow>
       k = AList.delete ''docs'' example_kwargs
       \<and> ''docs'' \<notin> fst ` set k
       \<and> (\<forall>key. key \<noteq> ''docs'' \<longrightarrow> map_of k key = map_of example_kwargs key)"
    by (rule bspec [OF docs_key_stripped mem])
  then have "?k = AList.delete ''docs'' example_kwargs \<and> ''docs'' \<notin> fst ` set ?k"
    by blast
  with n show ?thesis by blast
qed

text \<open>
  C9. When the options carry a \<open>methods\<close> value, Chalice's route registration receives
  that very value under \<open>methods\<close> (order and casing as supplied), while the conversion
  receives the lower-cased list.
\<close>

theorem methods_forwarded_unchanged:
  assumes "map_of kwargs ''methods'' = Some v"
  shows "\<forall>e\<in>set (new_calls w
           (snd (route env generate_default_docs (call_chalice_route env) path kwargs w))).
           (\<forall>p k. e = CallChaliceRoute p k \<longrightarrow> map_of k ''methods'' = Some v)
           \<and> (\<forall>d ms. e = BuildOperations d ms \<longrightarrow> lowered_methods kwargs = Inr ms)"
proof -
  obtain evs where evs:
    "calls (snd (route env generate_default_docs (call_chalice_route env) path kwargs w))
       = calls w @ evs"
    and ok: "\<forall>e\<in>set evs.
         (is_route_call e \<longrightarrow> e = CallChaliceRoute path (AList.delete ''docs'' kwargs))
         \<and> (\<forall>d' ms. e = BuildOperations d' ms \<longrightarrow> lowered_methods kwargs = Inr ms)"
    using route_trace [of env generate_default_docs path kwargs w] by blast
  have n: "new_calls w
        (snd (route env generate_default_docs (call_chalice_route env) path kwargs w)) = evs"
    using evs by (rule new_calls_append)
  have m: "map_of (AList.delete ''docs'' kwargs) ''methods'' = Some v"
    using assms by simp
  show ?thesis
    unfolding n
  proof (intro ballI conjI allI impI)
    fix e p k
    assume "e \<in> set evs" and e: "e = CallChaliceRoute p k"
    with ok have "k = AList.delete ''docs'' kwargs" by auto
    then show "map_of k ''methods'' = Some v" using m by simp
  next
    fix e d ms
    assume "e \<in> set evs" and "e = BuildOperations d ms"
    with ok show "lowered_methods kwargs = Inr ms" by blast
  qed
qed

theorem methods_forwarded_unchanged_witness:
  "map_of example_kwargs ''methods'' = Some (PList [PStr ''POST''])
   \<and> new_calls example_world
        (snd (route example_env False (call_chalice_route example_env) ''/hello'' example_kwargs
           example_world))
     = [BuildOperations post_docs [''post''], SpecPath ''/hello'' [''post''] None,
        CallChaliceRoute ''/hello'' [(''methods'', PList [PStr ''POST'']), (''cors'', PBool True)]]
   \<and> map_of [(''methods'', PList [PStr ''POST'']), (''cors'', PBool True)] ''methods''
        = Some (PList [PStr ''POST''])
   \<and> lowered_methods example_kwargs = Inr [''post'']"
proof -
  let ?k = "[(''methods'', PList [PStr ''POST'']), (''cors'', PBool True)]"
  let ?w' = "snd (route example_env False (call_chalice_route example_env) ''/hello''
                example_kwargs example_world)"
  have h: "map_of example_kwargs ''methods'' = Some (PList [PStr ''POST''])"
    by code_simp
  have n: "new_calls example_world ?w'
     = [BuildOperations post_docs [''post''], SpecPath ''/hello'' [''post''] None,
        CallChaliceRoute ''/hello'' ?k]"
    by code_simp
  have m1: "CallChaliceRoute ''/hello'' ?k \<in> set (new_calls example_world ?w')"
    by (simp only: n list.set insert_iff simp_thms)
  have m2: "BuildOperations post_docs [''post''] \<in> set (new_calls example_world ?w')"
    by (simp only: n list.set insert_iff simp_thms)
  have "\<forall>p k. (CallChaliceRoute ''/hello'' ?k :: string list event) = CallChaliceRoute p k
          \<longrightarrow> map_of k ''methods'' = Some (PList [PStr ''POST''])"
    using bspec [OF methods_forwarded_unchanged [OF h] m1] by (rule conjunct1)
  then have a: "map_of ?k ''methods'' = Some (PList [PStr ''POST''])"
    by blast
  have "\<forall>d ms. (BuildOperations post_docs [''post''] :: string list event) = BuildOperations d ms
          \<longrightarrow> lowered_methods example_kwargs = Inr ms"
    using bspec [OF methods_forwarded_unchanged [OF h] m2] by (rule conjunct2)
  then have b: "lowered_methods example_kwargs = Inr [''post'']"
    by blast
  from h n a b show ?thesis by (simp only: simp_thms)
qed

text \<open>
  C8. With no key \<open>docs\<close> and default docs disabled, the state of the spec is unchanged,
  the only call that leaves the module is Chalice's route registration with the path and
  exactly the options supplied, and (the methods being readable) the intercepted \<open>route\<close>
  is that registration, result and world alike.
\<close>

theorem no_docs_no_defaults:
  assumes "''docs'' \<notin> fst ` set kwargs"
  shows "(let w' = snd (route env False (call_chalice_route env) path kwargs w) in
          spec_state w' = spec_state w
          \<and> (\<forall>e\<in>set (new_calls w w'). e = CallChaliceRoute path kwargs))
    \<and> (\<forall>methods. lowered_methods kwargs = Inr methods \<longrightarrow>
          route env False (call_chalice_route env) path kwargs w
            = call_chalice_route env path kwargs w)"
proof -
  have none: "map_of kwargs ''docs'' = None"
    using assms by (simp add: map_of_eq_None_iff)
  have del: "AList.delete ''docs'' kwargs = kwargs"
    using assms by simp
  have doc: "document env False path kwargs w =
      (case lowered_methods kwargs of Inl e \<Rightarrow> (Inl e, w) | Inr methods \<Rightarrow> (Inr (), w))"
    by (simp add: document_def del none register_docs_def split: sum.splits)
  show ?thesis
  proof (cases "lowered_methods kwargs")
    case (Inl e)
    then have "route env False (call_chalice_route env) path kwargs w = (Inl e, w)"
      by (simp add: route_def doc)
    then show ?thesis
      using Inl by (simp add: new_calls_def)
  next
    case (Inr methods)
    then have r: "route env False (call_chalice_route env) path kwargs w
        = call_chalice_route env path kwargs w"
      by (simp add: route_def doc del)
    have "new_calls w (snd (call_chalice_route env path kwargs w)) = [CallChaliceRoute path kwargs]"
      by (rule new_calls_append) (rule call_chalice_route_calls)
    then show ?thesis
      by (simp add: r call_chalice_route_spec_state)
  qed
qed

theorem no_docs_no_defaults_witness:
  "''docs'' \<notin> fst ` set mixed_kwargs
   \<and> lowered_methods mixed_kwargs = Inr [''post'', ''get'', ''delete'']
   \<and> route example_env False (call_chalice_route example_env) ''/hello'' mixed_kwargs example_world
       = call_chalice_route example_env ''/hello'' mixed_kwargs example_world
   \<and> new_calls example_world
        (snd (route example_env False (call_chalice_route example_env) ''/hello'' mixed_kwargs
           example_world)) = [CallChaliceRoute ''/hello'' mixed_kwargs]
   \<and> spec_state (snd (route example_env False (call_chalice_route example_env) ''/hello''
        mixed_kwargs example_world)) = []"
proof -
  let ?w' = "snd (route example_env False (call_chalice_route example_env) ''/hello''
                mixed_kwargs example_world)"
  have h: "''docs'' \<notin> fst ` set mixed_kwargs"
    by (simp add: mixed_kwargs_def)
  have m: "lowered_methods mixed_kwargs = Inr [''post'', ''get'', ''delete'']"
    by code_simp
  have n: "new_calls example_world ?w' = [CallChaliceRoute ''/hello'' mixed_kwargs]"
    by code_simp
  have s: "spec_state example_world = []"
    by (simp add: example_world_def)
  note t = no_docs_no_defaults [OF h, of example_env "''/hello''" example_world]
  have r: "route example_env False (call_chalice_route example_env) ''/hello'' mixed_kwargs
             example_world
           = call_chalice_route example_env ''/hello'' mixed_kwargs example_world"
    using t m by blast
  have "spec_state ?w' = spec_state example_world"
    using t by (simp add: Let_def)
  with h m n r s show ?thesis by (simp only: simp_thms)
qed

subsection \<open>Normalization of the methods\<close>

text \<open>
  C7. Two calls from the same world whose \<open>methods\<close> lists differ in casing only (same
  length, and name by name the same letters) run the same documentation: the same calls to
  the conversion and to the spec, with the same arguments, and the same resulting state of
  the spec. Normalization is idempotent: the lower-cased list documents as the declared
  one does, and lower-casing it again changes nothing.
\<close>

theorem methods_case_insensitive:
  assumes "list_all2 differ_in_casing_only ms1 ms2"
  shows "document env generate_default_docs path
           (AList.update ''methods'' (PList (map PStr ms1)) kwargs) w
         = document env generate_default_docs path
           (AList.update ''methods'' (PList (map PStr ms2)) kwargs) w
    \<and> spec_state (snd (route env generate_default_docs (call_chalice_route env) path
           (AList.update ''methods'' (PList (map PStr ms1)) kwargs) w))
       = spec_state (snd (route env generate_default_docs (call_chalice_route env) path
           (AList.update ''methods'' (PList (map PStr ms2)) kwargs) w))
    \<and> document env generate_default_docs path
           (AList.update ''methods'' (PList (map PStr (map lower ms1))) kwargs) w
         = document env generate_default_docs path
           (AList.update ''methods'' (PList (map PStr ms1)) kwargs) w
    \<and> map lower (map lower ms1) = map lower ms1"
proof -
  have l: "map lower ms1 = map lower ms2"
    using assms by (simp only: casing_only_lists)
  have i: "map lower (map lower ms1) = map lower ms1"
    by (simp add: lower_idem)
  have d: "document env generate_default_docs path
           (AList.update ''methods'' (PList (map PStr ms1)) kwargs) w
         = document env generate_default_docs path
           (AList.update ''methods'' (PList (map PStr ms2)) kwargs) w"
    by (simp only: document_methods_list l)
  have s: "spec_state (snd (route env generate_default_docs (call_chalice_route env) path
           (AList.update ''methods'' (PList (map PStr ms1)) kwargs) w))
       = spec_state (snd (route env generate_default_docs (call_chalice_route env) path
           (AList.update ''methods'' (PList (map PStr ms2)) kwargs) w))"
    by (simp only: route_spec_state d)
  have n: "document env generate_default_docs path
           (AList.update ''methods'' (PList (map PStr (map lower ms1))) kwargs) w
         = document env generate_default_docs path
           (AList.update ''methods'' (PList (map PStr ms1)) kwargs) w"
    by (simp only: document_methods_list i)
  from d s n i show ?thesis by (intro conjI)
qed

theorem methods_case_insensitive_witness:
  "list_all2 differ_in_casing_only [''POST'', ''Get'', ''PUT''] [''post'', ''get'', ''put'']
   \<and> spec_state (snd (route example_env True (call_chalice_route example_env) ''/hello''
           (AList.update ''methods'' (PList (map PStr [''POST'', ''Get'', ''PUT''])) [])
           example_world))
       = spec_state (snd (route example_env True (call_chalice_route example_env) ''/hello''
           (AList.update ''methods'' (PList (map PStr [''post'', ''get'', ''put''])) [])
           example_world))
   \<and> spec_state (snd (route example_env True (call_chalice_route example_env) ''/hello''
           (AList.update ''methods'' (PList (map PStr [''post'', ''get'', ''put''])) [])
           example_world))
       = [(''/hello'', [''post'', ''get'', ''put''])]"
proof -
  have h: "list_all2 differ_in_casing_only [''POST'', ''Get'', ''PUT''] [''post'', ''get'', ''put'']"
    by code_simp
  have v: "spec_state (snd (route example_env True (call_chalice_route example_env) ''/hello''
           (AList.update ''methods'' (PList (map PStr [''post'', ''get'', ''put''])) [])
           example_world))
       = [(''/hello'', [''post'', ''get'', ''put''])]"
    by code_simp
  note t = methods_case_insensitive [OF h, of example_env True "''/hello''" "[]" example_world]
  have e: "spec_state (snd (route example_env True (call_chalice_route example_env) ''/hello''
           (AList.update ''methods'' (PList (map PStr [''POST'', ''Get'', ''PUT''])) [])
           example_world))
       = spec_state (snd (route example_env True (call_chalice_route example_env) ''/hello''
           (AList.update ''methods'' (PList (map PStr [''post'', ''get'', ''put''])) [])
           example_world))"
    by (rule conjunct1 [OF conjunct2 [OF t]])
  from h e v show ?thesis by (intro conjI)
qed

end
